theory Spec2Isabelle
  imports Complex_Main
begin

section \<open>Floating-point values of a series\<close>

text \<open>
  The pipeline keeps the values of a series in a pandas column of 64-bit floats and the
  dashboard reads them as JavaScript numbers.  A value is modelled as an exact real
  extended with the three special values of IEEE 754: rounding and signed zeros are left
  out (a zero is treated as \<open>+0\<close>), division by zero, infinities and NaN are kept, since
  numpy divides by zero without raising.
\<close>

datatype fval = Fin real | PInf | NInf | NaN

fun fdiv :: "fval \<Rightarrow> fval \<Rightarrow> fval" where
  "fdiv NaN _ = NaN"
| "fdiv _ NaN = NaN"
| "fdiv (Fin x) (Fin y) =
     (if y \<noteq> 0 then Fin (x / y) else if 0 < x then PInf else if x < 0 then NInf else NaN)"
| "fdiv (Fin x) PInf = Fin 0"
| "fdiv (Fin x) NInf = Fin 0"
| "fdiv PInf (Fin y) = (if 0 \<le> y then PInf else NInf)"
| "fdiv NInf (Fin y) = (if 0 \<le> y then NInf else PInf)"
| "fdiv PInf PInf = NaN"
| "fdiv PInf NInf = NaN"
| "fdiv NInf PInf = NaN"
| "fdiv NInf NInf = NaN"

fun fsub :: "fval \<Rightarrow> fval \<Rightarrow> fval" where
  "fsub NaN _ = NaN"
| "fsub _ NaN = NaN"
| "fsub (Fin x) (Fin y) = Fin (x - y)"
| "fsub (Fin x) PInf = NInf"
| "fsub (Fin x) NInf = PInf"
| "fsub PInf (Fin y) = PInf"
| "fsub NInf (Fin y) = NInf"
| "fsub PInf NInf = PInf"
| "fsub NInf PInf = NInf"
| "fsub PInf PInf = NaN"
| "fsub NInf NInf = NaN"

fun fmul :: "fval \<Rightarrow> fval \<Rightarrow> fval" where
  "fmul NaN _ = NaN"
| "fmul _ NaN = NaN"
| "fmul (Fin x) (Fin y) = Fin (x * y)"
| "fmul (Fin x) PInf = (if 0 < x then PInf else if x < 0 then NInf else NaN)"
| "fmul (Fin x) NInf = (if 0 < x then NInf else if x < 0 then PInf else NaN)"
| "fmul PInf (Fin y) = (if 0 < y then PInf else if y < 0 then NInf else NaN)"
| "fmul NInf (Fin y) = (if 0 < y then NInf else if y < 0 then PInf else NaN)"
| "fmul PInf PInf = PInf"
| "fmul PInf NInf = NInf"
| "fmul NInf PInf = NInf"
| "fmul NInf NInf = PInf"

text \<open>The order of the values that are not NaN; every comparison with NaN is false.\<close>

fun fle :: "fval \<Rightarrow> fval \<Rightarrow> bool" where
  "fle NaN _ = False"
| "fle _ NaN = False"
| "fle NInf _ = True"
| "fle _ PInf = True"
| "fle (Fin x) (Fin y) = (x \<le> y)"
| "fle (Fin x) NInf = False"
| "fle PInf (Fin y) = False"
| "fle PInf NInf = False"

section \<open>The enrichment routine\<close>

text \<open>
  \<^verbatim>\<open>
  def enrich(df):
      s = df["value"]
      return {
          "latest_value": float(s.iloc[-1]),
          "mom_pct": float((s.iloc[-1]/s.iloc[-2]-1)*100) if len(s)>1 else None,
          "yoy_pct": float((s.iloc[-1]/s.iloc[-13]-1)*100) if len(s)>13 else None,
          "min": float(s.min()),
          "max": float(s.max())
      }
  \<close>
  The data frame is the list of its rows.  \<open>iloc\<close> raises IndexError out of range and
  counts a negative position from the end; \<open>min\<close> and \<open>max\<close> of a pandas column skip NaN
  and are NaN when nothing is left.  The entries of the dictionary are evaluated in the
  order they are written, so an IndexError of the first entry is the result of the call.
\<close>

record series_point =
  date_of :: string
  value_of :: fval

datatype py_error = IndexError

record snapshot =
  latest_value :: "fval option"
  mom_pct :: "fval option"
  yoy_pct :: "fval option"
  min_field :: "fval option"
  max_field :: "fval option"

definition iloc :: "'a list \<Rightarrow> int \<Rightarrow> py_error + 'a" where
  "iloc s i =
     (if i < 0
      then (if - i \<le> int (length s) then Inr (s ! (length s - nat (- i))) else Inl IndexError)
      else (if i < int (length s) then Inr (s ! nat i) else Inl IndexError))"

definition pct_change :: "fval \<Rightarrow> fval \<Rightarrow> fval" where
  "pct_change new old = fmul (fsub (fdiv new old) (Fin 1)) (Fin 100)"

definition skipna :: "fval list \<Rightarrow> fval list" where
  "skipna s = filter (\<lambda>v. v \<noteq> NaN) s"

definition series_min :: "fval list \<Rightarrow> fval" where
  "series_min s =
     (case skipna s of [] \<Rightarrow> NaN | x # xs \<Rightarrow> fold (\<lambda>v m. if fle v m then v else m) xs x)"

definition series_max :: "fval list \<Rightarrow> fval" where
  "series_max s =
     (case skipna s of [] \<Rightarrow> NaN | x # xs \<Rightarrow> fold (\<lambda>v m. if fle m v then v else m) xs x)"

text \<open>
  The two deltas are the same expression at two offsets:
  \<open>float((s.iloc[-1]/s.iloc[k]-1)*100) if len(s)>n else None\<close>.
\<close>

definition delta :: "fval list \<Rightarrow> int \<Rightarrow> py_error + fval" where
  "delta s k =
     (case iloc s (- 1) of
        Inl e \<Rightarrow> Inl e
      | Inr new \<Rightarrow> (case iloc s k of Inl e \<Rightarrow> Inl e | Inr old \<Rightarrow> Inr (pct_change new old)))"

definition guarded_delta :: "fval list \<Rightarrow> int \<Rightarrow> nat \<Rightarrow> py_error + fval option" where
  "guarded_delta s k n =
     (if n < length s then map_sum id Some (delta s k) else Inr None)"

definition enrich :: "series_point list \<Rightarrow> py_error + snapshot" where
  "enrich df =
     (let s = map value_of df in
      case iloc s (- 1) of
        Inl e \<Rightarrow> Inl e
      | Inr latest \<Rightarrow>
          (case guarded_delta s (- 2) 1 of
             Inl e \<Rightarrow> Inl e
           | Inr mom \<Rightarrow>
               (case guarded_delta s (- 13) 13 of
                  Inl e \<Rightarrow> Inl e
                | Inr yoy \<Rightarrow>
                    Inr \<lparr>latest_value = Some latest, mom_pct = mom, yoy_pct = yoy,
                         min_field = Some (series_min s), max_field = Some (series_max s)\<rparr>)))"


section \<open>The artifact of an indicator\<close>

text \<open>
  The interface \<open>IndicatorData\<close> (components/Tile.tsx), the artifact of one indicator as
  the dashboard reads it.  A field of type \<open>number | null\<close> is an option; the field \<open>id\<close>
  is written \<open>id_field\<close>, since \<open>id\<close> is the identity function of HOL.
\<close>

record source_info =
  name :: string
  url :: string

record indicator_data =
  id_field :: string
  title :: string
  unit :: string
  frequency :: string
  source :: source_info
  last_updated_utc :: string
  series :: "series_point list"
  snapshot :: snapshot
  politics_overlay :: bool

section \<open>The sparkline component\<close>

text \<open>
  \<open>Spark\<close> of components/Spark.tsx.  The property \<open>data\<close> may be absent (undefined or
  null), which is \<open>None\<close>.  The calls made on the charting library are recorded in a
  trace; the option object given to \<open>setOption\<close> is not part of the model.  The effect
  returns its cleanup function only when it went past the guard.  When \<open>data\<close>, \<open>min\<close>
  or \<open>max\<close> changed, React runs the cleanup the last run returned and then the effect.
\<close>

datatype chart_call = Init | SetOption | Dispose

record spark_state =
  chartInstance :: bool
  isLoaded :: bool
  cleanup :: bool
  trace :: "chart_call list"

datatype spark_view = NoData | ChartView bool

definition no_points :: "series_point list option \<Rightarrow> bool" where
  "no_points data = (case data of None \<Rightarrow> True | Some xs \<Rightarrow> length xs = 0)"

definition spark_effect :: "bool \<Rightarrow> series_point list option \<Rightarrow> spark_state \<Rightarrow> spark_state" where
  "spark_effect chartRef data st =
     (if \<not> chartRef \<or> no_points data then st\<lparr>cleanup := False\<rparr>
      else
        (let st1 = (if \<not> chartInstance st
                    then st\<lparr>chartInstance := True, trace := trace st @ [Init]\<rparr> else st)
         in st1\<lparr>trace := trace st1 @ [SetOption], isLoaded := True, cleanup := True\<rparr>))"

definition spark_cleanup :: "spark_state \<Rightarrow> spark_state" where
  "spark_cleanup st =
     (if cleanup st \<and> chartInstance st
      then st\<lparr>chartInstance := False, trace := trace st @ [Dispose]\<rparr> else st)"

definition spark_commit :: "bool \<Rightarrow> series_point list option \<Rightarrow> spark_state \<Rightarrow> spark_state" where
  "spark_commit chartRef data st = spark_effect chartRef data (spark_cleanup st)"

definition spark_render :: "series_point list option \<Rightarrow> bool \<Rightarrow> spark_state \<Rightarrow> spark_view" where
  "spark_render data showPolitics st =
     (if no_points data then NoData else ChartView (showPolitics \<and> isLoaded st))"

definition spark_mount :: spark_state where
  "spark_mount = \<lparr>chartInstance = False, isLoaded = False, cleanup = False, trace = []\<rparr>"

fun spark_run :: "(bool \<times> series_point list option) list \<Rightarrow> spark_state \<Rightarrow> spark_state" where
  "spark_run [] st = st"
| "spark_run ((chartRef, data) # rest) st = spark_run rest (spark_commit chartRef data st)"

section \<open>The normalizer's choice of fields\<close>

text \<open>
  Modelled from the spec: the field-mapping normalizer (adapters/ssb_px.py,
  \<open>fetch_and_normalize\<close>) is not among the sources; only the guess-lists of a catalog
  entry are.  The spec (4.3): "scan the raw field names in guess-list order and select
  the first candidate present (case-insensitive exact match); fail with
  FetchError{schema_mismatch} if no candidate matches either list".  Case is folded on
  the letters A to Z.
\<close>

definition lower_char :: "char \<Rightarrow> char" where
  "lower_char c =
     (case map_of (zip ''ABCDEFGHIJKLMNOPQRSTUVWXYZ'' ''abcdefghijklmnopqrstuvwxyz'') c of
        None \<Rightarrow> c | Some l \<Rightarrow> l)"

definition same_name :: "string \<Rightarrow> string \<Rightarrow> bool" where
  "same_name a b = (map lower_char a = map lower_char b)"

definition present :: "string list \<Rightarrow> string \<Rightarrow> bool" where
  "present raw_fields candidate = list_ex (same_name candidate) raw_fields"

definition select_field :: "string list \<Rightarrow> string list \<Rightarrow> string option" where
  "select_field guess_list raw_fields = find (present raw_fields) guess_list"

datatype fetch_error = schema_mismatch

definition resolve_fields ::
  "string list \<Rightarrow> string list \<Rightarrow> string list \<Rightarrow> fetch_error + string \<times> string" where
  "resolve_fields date_field_guess value_field_guess raw_fields =
     (case select_field date_field_guess raw_fields of
        None \<Rightarrow> Inl schema_mismatch
      | Some d \<Rightarrow>
          (case select_field value_field_guess raw_fields of
             None \<Rightarrow> Inl schema_mismatch
           | Some v \<Rightarrow> Inr (d, v)))"

section \<open>The writer's truncation and the validator's check\<close>






section \<open>Example inputs\<close>

definition point :: "string \<Rightarrow> real \<Rightarrow> series_point" where
  "point d v = \<lparr>date_of = d, value_of = Fin v\<rparr>"


section \<open>Properties of the enrichment routine\<close>

subsection \<open>Positions counted from the end\<close>

text \<open>
  \<open>rev s ! 0\<close> is the last point of a series and \<open>rev s ! j\<close> the point \<open>j\<close> positions
  before it, so \<open>s.iloc[-k]\<close> is \<open>rev s ! (k - 1)\<close> wherever it exists.
\<close>

lemma iloc_from_end:
  assumes "0 < k" and "k \<le> length s"
  shows "iloc s (- int k) = Inr (rev s ! (k - 1))"
proof -
  have "length s - k < length s" using assms by arith
  moreover have "length s - Suc (length s - k) = k - 1" using assms by arith
  ultimately have "s ! (length s - k) = rev s ! (k - 1)"
    using assms by (simp add: rev_nth)
  then show ?thesis using assms by (simp add: iloc_def)
qed

lemma iloc_too_short: "length s < k \<Longrightarrow> iloc s (- int k) = Inl IndexError"
  by (simp add: iloc_def)

lemma delta_from_end:
  assumes "0 < k" and "k \<le> length s"
  shows "delta s (- int k) = Inr (pct_change (rev s ! 0) (rev s ! (k - 1)))"
proof -
  have "0 < (1::nat)" and "1 \<le> length s" using assms by auto
  then have "iloc s (- int 1) = Inr (rev s ! (1 - 1))" by (rule iloc_from_end)
  then have "iloc s (- 1) = Inr (rev s ! 0)" by simp
  then show ?thesis using iloc_from_end [OF assms] by (simp add: delta_def)
qed

lemma rev_map_nth: "i < length xs \<Longrightarrow> rev (map f xs) ! i = f (rev xs ! i)"
  by (simp add: rev_map)

lemma rev_nth_0: "xs \<noteq> [] \<Longrightarrow> rev xs ! 0 = last xs"
  by (simp add: hd_rev [symmetric] hd_conv_nth)

lemma guarded_delta_from_end:
  assumes "0 < k" and "k \<le> Suc n"
  shows "guarded_delta (map f df) (- int k) n =
     Inr (if n < length df then Some (pct_change (f (rev df ! 0)) (f (rev df ! (k - 1)))) else None)"
proof (cases "n < length df")
  case True
  then have k: "k \<le> length (map f df)" using assms by simp
  have "delta (map f df) (- int k) =
      Inr (pct_change (rev (map f df) ! 0) (rev (map f df) ! (k - 1)))"
    using assms(1) k by (rule delta_from_end)
  moreover have "rev (map f df) ! 0 = f (rev df ! 0)"
    using True by (intro rev_map_nth) arith
  moreover have "rev (map f df) ! (k - 1) = f (rev df ! (k - 1))"
    using True assms by (intro rev_map_nth) arith
  ultimately show ?thesis using True by (simp add: guarded_delta_def)
next
  case False
  then show ?thesis by (simp add: guarded_delta_def)
qed

lemma enrich_nonempty:
  assumes "df \<noteq> []"
  shows "enrich df = Inr
     \<lparr>latest_value = Some (value_of (last df)),
      mom_pct = (if 1 < length df
                 then Some (pct_change (value_of (rev df ! 0)) (value_of (rev df ! 1))) else None),
      yoy_pct = (if 13 < length df
                 then Some (pct_change (value_of (rev df ! 0)) (value_of (rev df ! 12))) else None),
      min_field = Some (series_min (map value_of df)),
      max_field = Some (series_max (map value_of df))\<rparr>"
proof -
  let ?s = "map value_of df"
  have len: "1 \<le> length ?s" using assms by (cases df) auto
  have "iloc ?s (- int 1) = Inr (rev ?s ! (1 - 1))"
    using len by (intro iloc_from_end) auto
  moreover have "rev ?s ! 0 = value_of (rev df ! 0)"
    using assms by (intro rev_map_nth) simp
  ultimately have latest: "iloc ?s (- 1) = Inr (value_of (last df))"
    using assms by (simp add: rev_nth_0)
  have "guarded_delta ?s (- int 2) 1 =
      Inr (if 1 < length df
           then Some (pct_change (value_of (rev df ! 0)) (value_of (rev df ! (2 - 1)))) else None)"
    by (rule guarded_delta_from_end) auto
  then have mom: "guarded_delta ?s (- 2) 1 =
      Inr (if 1 < length df
           then Some (pct_change (value_of (rev df ! 0)) (value_of (rev df ! 1))) else None)"
    by simp
  have "guarded_delta ?s (- int 13) 13 =
      Inr (if 13 < length df
           then Some (pct_change (value_of (rev df ! 0)) (value_of (rev df ! (13 - 1)))) else None)"
    by (rule guarded_delta_from_end) auto
  then have yoy: "guarded_delta ?s (- 13) 13 =
      Inr (if 13 < length df
           then Some (pct_change (value_of (rev df ! 0)) (value_of (rev df ! 12))) else None)"
    by simp
  show ?thesis
    unfolding enrich_def Let_def latest mom yoy by simp
qed

lemma enrich_mom_pct:
  assumes "df \<noteq> []"
  shows "\<exists>snap. enrich df = Inr snap \<and>
     mom_pct snap = (if 2 \<le> length df
                     then Some (pct_change (value_of (rev df ! 0)) (value_of (rev df ! 1)))
                     else None)"
  using enrich_nonempty [OF assms] by (simp add: Suc_le_eq)

lemma enrich_yoy_pct:
  assumes "df \<noteq> []"
  shows "\<exists>snap. enrich df = Inr snap \<and>
     yoy_pct snap = (if 14 \<le> length df
                     then Some (pct_change (value_of (rev df ! 0)) (value_of (rev df ! 12)))
                     else None)"
proof -
  have "(13 < length df) = (14 \<le> length df)" by arith
  then show ?thesis using enrich_nonempty [OF assms] by simp
qed

lemma pct_change_zero_denominator: "pct_change x (Fin 0) \<in> {PInf, NInf, NaN}"
  by (cases x) (simp_all add: pct_change_def)

lemmas enrich_eval = enrich_def iloc_def guarded_delta_def delta_def pct_change_def
  series_min_def series_max_def skipna_def point_def

subsection \<open>The empty series\<close>

text \<open>
  C4: the latest value is the value of the last point, and on the empty series it is
  null, the routine returning a snapshot.  The routine does not return on the empty
  series: its first entry reads \<open>s.iloc[-1]\<close>, which raises IndexError.
\<close>

theorem enrich_empty_series: "enrich [] = Inl IndexError"
  by (simp add: enrich_def iloc_def)

text \<open>
  C5: the month-over-month delta is \<open>(s[-1]/s[-2]-1)*100\<close> from two points on and null
  below.  It is so for every series with a point (\<open>enrich_mom_pct\<close>); on the empty
  series the call raises before the entry is reached, so no null delta is returned.
\<close>

theorem enrich_empty_series_mom: "map_sum id mom_pct (enrich []) = Inl IndexError"
  by (simp add: enrich_def iloc_def)

subsection \<open>Thirteen points\<close>

text \<open>
  C1: with at least 13 monthly points the year-over-year delta is defined and equals
  \<open>(s[-1]/s[-13]-1)*100\<close>.  The guard of the entry is \<open>len(s)>13\<close>, so with exactly 13
  points, where \<open>s.iloc[-13]\<close> exists and the delta would be 12 percent, the entry is
  null; from 14 points on it is the stated value (\<open>enrich_yoy_pct\<close>).
\<close>

theorem enrich_thirteen_points:
  "enrich [point ''2023-01'' 100, point ''2023-02'' 101, point ''2023-03'' 102,
           point ''2023-04'' 103, point ''2023-05'' 104, point ''2023-06'' 105,
           point ''2023-07'' 106, point ''2023-08'' 107, point ''2023-09'' 108,
           point ''2023-10'' 109, point ''2023-11'' 110, point ''2023-12'' 111,
           point ''2024-01'' 112]
   = Inr \<lparr>latest_value = Some (Fin 112), mom_pct = Some (Fin (100 / 111)), yoy_pct = None,
          min_field = Some (Fin 100), max_field = Some (Fin 112)\<rparr>"
  by (simp add: enrich_eval)

subsection \<open>A denominator of zero\<close>

text \<open>
  C3 as stated: a denominator point of value zero yields a null delta.  The routine has
  no test of the denominator: from 0 to 5 the month-over-month delta is infinite, not
  null.
\<close>

theorem zero_denominator_counterexample:
  "enrich [point ''2024-01'' 0, point ''2024-02'' 5]
   = Inr \<lparr>latest_value = Some (Fin 5), mom_pct = Some PInf, yoy_pct = None,
          min_field = Some (Fin 0), max_field = Some (Fin 5)\<rparr>"
  by (simp add: enrich_eval)

text \<open>
  C3, amended: a denominator of value zero does not yield null.  With at least 2 points
  and a preceding point of value zero the month-over-month delta is not null but
  infinite or NaN, and so is the year-over-year delta with at least 14 points and a
  zero 12 positions back.  A delta is null when its denominator point does not exist:
  the month-over-month delta of a series of one point, the year-over-year delta of a
  series of 1 to 12 points.
\<close>

theorem zero_denominator_not_null:
  "(2 \<le> length df \<and> value_of (rev df ! 1) = Fin 0 \<longrightarrow>
      (\<exists>snap v. enrich df = Inr snap \<and> mom_pct snap = Some v \<and> v \<in> {PInf, NInf, NaN})) \<and>
   (14 \<le> length df \<and> value_of (rev df ! 12) = Fin 0 \<longrightarrow>
      (\<exists>snap v. enrich df = Inr snap \<and> yoy_pct snap = Some v \<and> v \<in> {PInf, NInf, NaN})) \<and>
   (length df = 1 \<longrightarrow> (\<exists>snap. enrich df = Inr snap \<and> mom_pct snap = None)) \<and>
   (1 \<le> length df \<and> length df \<le> 12 \<longrightarrow>
      (\<exists>snap. enrich df = Inr snap \<and> yoy_pct snap = None))"
proof (intro conjI impI)
  assume h: "2 \<le> length df \<and> value_of (rev df ! 1) = Fin 0"
  then have "df \<noteq> []" by auto
  from enrich_nonempty [OF this] h pct_change_zero_denominator [of "value_of (rev df ! 0)"]
  show "\<exists>snap v. enrich df = Inr snap \<and> mom_pct snap = Some v \<and> v \<in> {PInf, NInf, NaN}"
    by simp
next
  assume h: "14 \<le> length df \<and> value_of (rev df ! 12) = Fin 0"
  then have "df \<noteq> []" by auto
  from enrich_nonempty [OF this] h pct_change_zero_denominator [of "value_of (rev df ! 0)"]
  show "\<exists>snap v. enrich df = Inr snap \<and> yoy_pct snap = Some v \<and> v \<in> {PInf, NInf, NaN}"
    by simp
next
  assume h: "length df = 1"
  then have "df \<noteq> []" by auto
  from enrich_nonempty [OF this] h
  show "\<exists>snap. enrich df = Inr snap \<and> mom_pct snap = None" by simp
next
  assume h: "1 \<le> length df \<and> length df \<le> 12"
  then have "df \<noteq> []" by auto
  from enrich_nonempty [OF this] h
  show "\<exists>snap. enrich df = Inr snap \<and> yoy_pct snap = None" by simp
qed

theorem zero_denominator_not_null_witness:
  "(2 \<le> length [point ''2024-01'' 0, point ''2024-02'' 5] \<and>
    value_of (rev [point ''2024-01'' 0, point ''2024-02'' 5] ! 1) = Fin 0 \<and>
    (\<exists>snap v. enrich [point ''2024-01'' 0, point ''2024-02'' 5] = Inr snap \<and>
        mom_pct snap = Some v \<and> v \<in> {PInf, NInf, NaN})) \<and>
   (14 \<le> length (point ''2023-01'' 7 # point ''2023-02'' 0 # replicate 12 (point ''2023'' 3)) \<and>
    value_of (rev (point ''2023-01'' 7 # point ''2023-02'' 0 # replicate 12 (point ''2023'' 3)) ! 12)
      = Fin 0 \<and>
    (\<exists>snap v. enrich (point ''2023-01'' 7 # point ''2023-02'' 0 # replicate 12 (point ''2023'' 3))
        = Inr snap \<and> yoy_pct snap = Some v \<and> v \<in> {PInf, NInf, NaN})) \<and>
   (length [point ''2024-01'' 5] = 1 \<and>
    (\<exists>snap. enrich [point ''2024-01'' 5] = Inr snap \<and> mom_pct snap = None) \<and>
    (\<exists>snap. enrich [point ''2024-01'' 5] = Inr snap \<and> yoy_pct snap = None))"
proof -
  let ?a = "[point ''2024-01'' 0, point ''2024-02'' 5]"
  let ?b = "point ''2023-01'' 7 # point ''2023-02'' 0 # replicate 12 (point ''2023'' 3)"
  let ?c = "[point ''2024-01'' 5]"
  have a: "2 \<le> length ?a \<and> value_of (rev ?a ! 1) = Fin 0"
    by (simp add: point_def)
  have "rev ?b ! 12 = point ''2023-02'' 0"
    by (simp add: nth_append)
  then have b: "14 \<le> length ?b \<and> value_of (rev ?b ! 12) = Fin 0"
    by (simp add: point_def)
  have c: "length ?c = 1" and c': "1 \<le> length ?c \<and> length ?c \<le> 12"
    by simp_all
  note A = zero_denominator_not_null [of ?a, THEN conjunct1, THEN mp, OF a]
  note B = zero_denominator_not_null [of ?b, THEN conjunct2, THEN conjunct1, THEN mp, OF b]
  note C = zero_denominator_not_null [of ?c, THEN conjunct2, THEN conjunct2, THEN conjunct1,
      THEN mp, OF c]
  note D = zero_denominator_not_null [of ?c, THEN conjunct2, THEN conjunct2, THEN conjunct2,
      THEN mp, OF c']
  show ?thesis
    by (intro conjI) (rule a [THEN conjunct1] a [THEN conjunct2] b [THEN conjunct1]
        b [THEN conjunct2] c A B C D)+
qed

section \<open>Minimum and maximum\<close>













section \<open>Properties of the sparkline component\<close>

lemma spark_commit_no_points:
  assumes "no_points data"
  shows "count_list (trace (spark_commit chartRef data st)) Init = count_list (trace st) Init"
  using assms by (simp add: spark_commit_def spark_effect_def spark_cleanup_def)

lemma spark_commit_init_only_with_points:
  assumes "count_list (trace (spark_commit chartRef data st)) Init \<noteq> count_list (trace st) Init"
  shows "\<exists>xs. data = Some xs \<and> 1 \<le> length xs"
proof (rule ccontr)
  assume "\<not> (\<exists>xs. data = Some xs \<and> 1 \<le> length xs)"
  then have "no_points data"
    by (cases data) (auto simp: no_points_def Suc_le_eq)
  from spark_commit_no_points [OF this] assms show False by blast
qed

lemma spark_run_no_points:
  assumes "list_all (\<lambda>(chartRef, data). no_points data) props"
  shows "count_list (trace (spark_run props st)) Init = count_list (trace st) Init"
  using assms
proof (induction props arbitrary: st)
  case Nil
  show ?case by simp
next
  case (Cons p props)
  obtain chartRef data where p: "p = (chartRef, data)" by (cases p)
  with Cons.prems have "no_points data" and "list_all (\<lambda>(chartRef, data). no_points data) props"
    by simp_all
  then show ?case
    unfolding p by (simp add: Cons.IH spark_commit_no_points)
qed

lemma spark_run_no_chart:
  assumes "list_all (\<lambda>(chartRef, data). no_points data) props"
    and "chartInstance st \<longrightarrow> cleanup st"
  shows "props \<noteq> [] \<longrightarrow> \<not> chartInstance (spark_run props st)"
  using assms
proof (induction props arbitrary: st)
  case Nil
  show ?case by simp
next
  case (Cons p props)
  obtain chartRef data where p: "p = (chartRef, data)" by (cases p)
  with Cons.prems have np: "no_points data"
    and rest: "list_all (\<lambda>(chartRef, data). no_points data) props"
    by simp_all
  have off: "\<not> chartInstance (spark_commit chartRef data st)"
    using np Cons.prems(2) by (auto simp: spark_commit_def spark_effect_def spark_cleanup_def)
  show ?case
  proof (cases props)
    case Nil
    then show ?thesis using off by (simp add: p)
  next
    case (Cons q qs)
    then have "props \<noteq> []" by simp
    moreover have "chartInstance (spark_commit chartRef data st) \<longrightarrow>
        cleanup (spark_commit chartRef data st)" using off by simp
    ultimately show ?thesis using Cons.IH [OF rest] by (simp add: p)
  qed
qed

text \<open>
  C10: when the series is absent or empty the component renders the placeholder
  "No data" and the effect initialises no chart; through any sequence of renders
  without points, from the mount on, no chart is initialised and none is live.  A chart
  is initialised only when the series has at least one point.
\<close>

theorem spark_no_data:
  "(no_points data \<longrightarrow>
      spark_render data showPolitics st = NoData \<and>
      count_list (trace (spark_commit chartRef data st)) Init = count_list (trace st) Init) \<and>
   (list_all (\<lambda>(chartRef, data). no_points data) props \<longrightarrow>
      Init \<notin> set (trace (spark_run props spark_mount)) \<and>
      \<not> chartInstance (spark_run props spark_mount)) \<and>
   (count_list (trace (spark_commit chartRef data st)) Init \<noteq> count_list (trace st) Init \<longrightarrow>
      (\<exists>xs. data = Some xs \<and> 1 \<le> length xs))"
proof (intro conjI impI)
  assume "no_points data"
  then show "spark_render data showPolitics st = NoData" by (simp add: spark_render_def)
next
  assume "no_points data"
  then show "count_list (trace (spark_commit chartRef data st)) Init = count_list (trace st) Init"
    by (rule spark_commit_no_points)
next
  assume a: "list_all (\<lambda>(chartRef, data). no_points data) props"
  from spark_run_no_points [OF a, of spark_mount]
  have "count_list (trace (spark_run props spark_mount)) Init = 0"
    by (simp add: spark_mount_def)
  then show "Init \<notin> set (trace (spark_run props spark_mount))"
    by (simp add: count_list_0_iff)
next
  assume a: "list_all (\<lambda>(chartRef, data). no_points data) props"
  show "\<not> chartInstance (spark_run props spark_mount)"
  proof (cases props)
    case Nil
    then show ?thesis by (simp add: spark_mount_def)
  next
    case (Cons q qs)
    then have "props \<noteq> []" by simp
    moreover have "chartInstance spark_mount \<longrightarrow> cleanup spark_mount"
      by (simp add: spark_mount_def)
    ultimately show ?thesis using spark_run_no_chart [OF a] by blast
  qed
next
  assume "count_list (trace (spark_commit chartRef data st)) Init \<noteq> count_list (trace st) Init"
  then show "\<exists>xs. data = Some xs \<and> 1 \<le> length xs"
    by (rule spark_commit_init_only_with_points)
qed

theorem spark_no_data_witness:
  "no_points None \<and> no_points (Some []) \<and>
   spark_render None True spark_mount = NoData \<and>
   spark_render (Some []) True spark_mount = NoData \<and>
   Init \<notin> set (trace (spark_run [(True, None), (True, Some [])] spark_mount)) \<and>
   \<not> chartInstance (spark_run [(True, None), (True, Some [])] spark_mount) \<and>
   count_list (trace (spark_commit True (Some [point ''2024-01'' 1]) spark_mount)) Init
     \<noteq> count_list (trace spark_mount) Init \<and>
   (\<exists>xs. Some [point ''2024-01'' 1] = Some xs \<and> 1 \<le> length xs)"
proof -
  have n: "no_points None" and e: "no_points (Some [])"
    by (simp_all add: no_points_def)
  have l: "list_all (\<lambda>(chartRef, data). no_points data) [(True, None), (True, Some [])]"
    using n e by simp
  have i: "count_list (trace (spark_commit True (Some [point ''2024-01'' 1]) spark_mount)) Init
     \<noteq> count_list (trace spark_mount) Init"
    by (simp add: spark_commit_def spark_effect_def spark_cleanup_def spark_mount_def
        no_points_def)
  note r1 = spark_no_data [of None True spark_mount True "[]", THEN conjunct1, THEN mp, OF n,
      THEN conjunct1]
  note r2 = spark_no_data [of "Some []" True spark_mount True "[]", THEN conjunct1, THEN mp,
      OF e, THEN conjunct1]
  note r3 = spark_no_data [of None True spark_mount True "[(True, None), (True, Some [])]",
      THEN conjunct2, THEN conjunct1, THEN mp, OF l]
  note r4 = spark_no_data [of "Some [point ''2024-01'' 1]" True spark_mount True "[]",
      THEN conjunct2, THEN conjunct2, THEN mp, OF i]
  from n e r1 r2 r3 r4 i show ?thesis by (intro conjI) (erule conjunct1 conjunct2 | assumption)+
qed

section \<open>Properties of the choice of fields\<close>

lemmas field_eval = present_def same_name_def lower_char_def

lemma find_first:
  "find P xs = Some x \<longleftrightarrow>
     (\<exists>ys zs. xs = ys @ x # zs \<and> P x \<and> (\<forall>y \<in> set ys. \<not> P y))"
proof (induction xs)
  case Nil
  show ?case by simp
next
  case (Cons a xs)
  show ?case
  proof (cases "P a")
    case True
    have "(\<exists>ys zs. a # xs = ys @ x # zs \<and> P x \<and> (\<forall>y \<in> set ys. \<not> P y)) \<longleftrightarrow> a = x"
    proof
      assume "\<exists>ys zs. a # xs = ys @ x # zs \<and> P x \<and> (\<forall>y \<in> set ys. \<not> P y)"
      then obtain ys zs where h: "a # xs = ys @ x # zs" "\<forall>y \<in> set ys. \<not> P y" by blast
      show "a = x"
      proof (cases ys)
        case Nil
        with h show ?thesis by simp
      next
        case (Cons b bs)
        with h True show ?thesis by auto
      qed
    next
      assume "a = x"
      then have "a # xs = [] @ x # xs \<and> P x \<and> (\<forall>y \<in> set []. \<not> P y)" using True by simp
      then show "\<exists>ys zs. a # xs = ys @ x # zs \<and> P x \<and> (\<forall>y \<in> set ys. \<not> P y)" by blast
    qed
    with True show ?thesis by auto
  next
    case False
    have "(\<exists>ys zs. a # xs = ys @ x # zs \<and> P x \<and> (\<forall>y \<in> set ys. \<not> P y)) \<longleftrightarrow>
          (\<exists>ys zs. xs = ys @ x # zs \<and> P x \<and> (\<forall>y \<in> set ys. \<not> P y))"
    proof
      assume "\<exists>ys zs. a # xs = ys @ x # zs \<and> P x \<and> (\<forall>y \<in> set ys. \<not> P y)"
      then obtain ys zs where h: "a # xs = ys @ x # zs" "P x" "\<forall>y \<in> set ys. \<not> P y" by blast
      show "\<exists>ys zs. xs = ys @ x # zs \<and> P x \<and> (\<forall>y \<in> set ys. \<not> P y)"
      proof (cases ys)
        case Nil
        with h False show ?thesis by simp
      next
        case (Cons b bs)
        with h have "xs = bs @ x # zs \<and> P x \<and> (\<forall>y \<in> set bs. \<not> P y)" by simp
        then show ?thesis by blast
      qed
    next
      assume "\<exists>ys zs. xs = ys @ x # zs \<and> P x \<and> (\<forall>y \<in> set ys. \<not> P y)"
      then obtain ys zs where h: "xs = ys @ x # zs" "P x" "\<forall>y \<in> set ys. \<not> P y" by blast
      then have "a # xs = (a # ys) @ x # zs \<and> P x \<and> (\<forall>y \<in> set (a # ys). \<not> P y)"
        using False by simp
      then show "\<exists>ys zs. a # xs = ys @ x # zs \<and> P x \<and> (\<forall>y \<in> set ys. \<not> P y)" by blast
    qed
    with False Cons.IH show ?thesis by simp
  qed
qed

text \<open>
  C6: the normalizer selects the first candidate of the guess-list, in the order of the
  list, that is present among the raw field names, compared without regard to case
  (the raw field "Tid" with the guess-list "Month", "time", "Tid" selects "Tid"), and
  fails with a schema mismatch when a list has no candidate that matches.
\<close>

theorem select_field_first_match:
  "(select_field guess raw = Some c \<longleftrightarrow>
      (\<exists>before after. guess = before @ c # after \<and> present raw c \<and>
         (\<forall>b \<in> set before. \<not> present raw b))) \<and>
   (select_field guess raw = None \<longleftrightarrow> (\<forall>b \<in> set guess. \<not> present raw b)) \<and>
   (present raw c \<longleftrightarrow> (\<exists>f \<in> set raw. map lower_char c = map lower_char f)) \<and>
   (select_field dates raw = None \<or> select_field vals raw = None \<longrightarrow>
      resolve_fields dates vals raw = Inl schema_mismatch) \<and>
   (select_field dates raw = Some d \<and> select_field vals raw = Some v \<longrightarrow>
      resolve_fields dates vals raw = Inr (d, v))"
proof (intro conjI)
  show "select_field guess raw = Some c \<longleftrightarrow>
      (\<exists>before after. guess = before @ c # after \<and> present raw c \<and>
         (\<forall>b \<in> set before. \<not> present raw b))"
    unfolding select_field_def by (rule find_first)
  show "select_field guess raw = None \<longleftrightarrow> (\<forall>b \<in> set guess. \<not> present raw b)"
    by (auto simp: select_field_def find_None_iff)
  show "present raw c \<longleftrightarrow> (\<exists>f \<in> set raw. map lower_char c = map lower_char f)"
    by (simp add: present_def same_name_def list_ex_iff)
  show "select_field dates raw = None \<or> select_field vals raw = None \<longrightarrow>
      resolve_fields dates vals raw = Inl schema_mismatch"
    by (auto simp: resolve_fields_def split: option.splits)
  show "select_field dates raw = Some d \<and> select_field vals raw = Some v \<longrightarrow>
      resolve_fields dates vals raw = Inr (d, v)"
    by (simp add: resolve_fields_def)
qed

theorem select_field_first_match_witness:
  "select_field [''Month'', ''time'', ''Tid''] [''Tid'', ''value''] = Some ''Tid'' \<and>
   select_field [''Month'', ''time''] [''Tid'', ''value''] = None \<and>
   resolve_fields [''Month'', ''time''] [''value''] [''Tid'', ''value''] = Inl schema_mismatch \<and>
   resolve_fields [''Month'', ''time'', ''Tid''] [''VALUE''] [''Tid'', ''value'']
     = Inr (''Tid'', ''VALUE'')"
proof -
  let ?raw = "[''Tid'', ''value'']"
  have tid: "present ?raw ''Tid''" and month: "\<not> present ?raw ''Month''"
    and time: "\<not> present ?raw ''time''" and val: "present ?raw ''VALUE''"
    by (simp_all add: field_eval)
  have "[''Month'', ''time'', ''Tid''] = [''Month'', ''time''] @ ''Tid'' # [] \<and>
      present ?raw ''Tid'' \<and> (\<forall>b \<in> set [''Month'', ''time'']. \<not> present ?raw b)"
    using tid month time by simp
  then have "\<exists>before after. [''Month'', ''time'', ''Tid''] = before @ ''Tid'' # after \<and>
      present ?raw ''Tid'' \<and> (\<forall>b \<in> set before. \<not> present ?raw b)"
    by blast
  then have a: "select_field [''Month'', ''time'', ''Tid''] ?raw = Some ''Tid''"
    by (rule select_field_first_match [THEN conjunct1, THEN iffD2])
  have "\<forall>b \<in> set [''Month'', ''time'']. \<not> present ?raw b"
    using month time by simp
  then have b: "select_field [''Month'', ''time''] ?raw = None"
    by (rule select_field_first_match [THEN conjunct2, THEN conjunct1, THEN iffD2])
  then have "select_field [''Month'', ''time''] ?raw = None \<or> select_field [''value''] ?raw = None"
    by (rule disjI1)
  then have c: "resolve_fields [''Month'', ''time''] [''value''] ?raw = Inl schema_mismatch"
    by (rule select_field_first_match [THEN conjunct2, THEN conjunct2, THEN conjunct2,
          THEN conjunct1, THEN mp])
  have "[''VALUE''] = [] @ ''VALUE'' # [] \<and> present ?raw ''VALUE'' \<and>
      (\<forall>b \<in> set []. \<not> present ?raw b)"
    using val by simp
  then have "\<exists>before after. [''VALUE''] = before @ ''VALUE'' # after \<and>
      present ?raw ''VALUE'' \<and> (\<forall>b \<in> set before. \<not> present ?raw b)"
    by blast
  then have "select_field [''VALUE''] ?raw = Some ''VALUE''"
    by (rule select_field_first_match [THEN conjunct1, THEN iffD2])
  with a have "select_field [''Month'', ''time'', ''Tid''] ?raw = Some ''Tid'' \<and>
      select_field [''VALUE''] ?raw = Some ''VALUE''" by (rule conjI)
  then have d: "resolve_fields [''Month'', ''time'', ''Tid''] [''VALUE''] ?raw
      = Inr (''Tid'', ''VALUE'')"
    by (rule select_field_first_match [THEN conjunct2, THEN conjunct2, THEN conjunct2,
          THEN conjunct2, THEN mp])
  from a b c d show ?thesis by (intro conjI)
qed

end
